theory Spec2Isabelle
  imports
    Complex_Main
    "HOL-Library.Sublist"
    "HOL-Library.Char_ord"
    "HOL-Library.List_Lexorder"
    "HOL-Library.AList"
    "HOL-Library.Multiset"
begin

section \<open>Python strings and the string operations the script uses\<close>

text \<open>
  A Python \<open>str\<close> is modelled as a \<open>string\<close>: a list of characters, one \<open>char\<close> per
  code point, for code points below 256. Files are opened in text mode, so what the
  script reads has its line ends already translated to the line feed.
\<close>

definition newline :: char where
  "newline = CHR 0x0A"

text \<open>\<open>str.isspace\<close> on one character, for code points below 256.\<close>

definition isspace :: "char \<Rightarrow> bool" where
  "isspace c =
     (let n = (of_char c :: nat)
      in (9 \<le> n \<and> n \<le> 13) \<or> (28 \<le> n \<and> n \<le> 32) \<or> n = 133 \<or> n = 160)"

text \<open>\<open>s.strip()\<close>: leading and trailing whitespace removed.\<close>

definition strip :: "string \<Rightarrow> string" where
  "strip s = rev (dropWhile isspace (rev (dropWhile isspace s)))"

text \<open>\<open>s.startswith(w)\<close> and \<open>s.endswith(w)\<close>.\<close>

definition startswith :: "string \<Rightarrow> string \<Rightarrow> bool" where
  "startswith s w = prefix w s"

definition endswith :: "string \<Rightarrow> string \<Rightarrow> bool" where
  "endswith s w = suffix w s"

text \<open>\<open>sep.join(xs)\<close>.\<close>

fun str_join :: "string \<Rightarrow> string list \<Rightarrow> string" where
  "str_join sep [] = []"
| "str_join sep [x] = x"
| "str_join sep (x # y # ys) = x @ sep @ str_join sep (y # ys)"

text \<open>\<open>s.split(c)\<close> for a separator of one character: never an empty list.\<close>

fun split_on :: "char \<Rightarrow> string \<Rightarrow> string list" where
  "split_on c [] = [[]]"
| "split_on c (x # xs) =
     (if x = c then [] # split_on c xs
      else (case split_on c xs of
              [] \<Rightarrow> [[x]]
            | w # ws \<Rightarrow> (x # w) # ws))"

section \<open>Regular expressions\<close>

text \<open>
  The fragment of Python's \<open>re\<close> that the six patterns of the script need. A pattern is
  a body, anchored at the start of the string (\<open>^\<close>) or not. \<open>rmatch r s\<close> lists what is
  left of \<open>s\<close> after each way of matching \<open>r\<close> at its start, in the order the
  backtracking matcher tries them: a greedy star first takes as much as it can, an
  alternative tries its left side first. The head of the list is the match \<open>re\<close> reports.
\<close>

datatype regex =
    Lit string
  | NotIn "char list"
  | Seq regex regex
  | Alt regex regex
  | Star regex

datatype pattern = Anchored regex | Unanchored regex

fun rmatch :: "regex \<Rightarrow> string \<Rightarrow> string list" where
  "rmatch (Lit w) s = (if prefix w s then [drop (length w) s] else [])"
| "rmatch (NotIn cs) s =
     (case s of [] \<Rightarrow> [] | c # t \<Rightarrow> if c \<in> set cs then [] else [t])"
| "rmatch (Seq r1 r2) s = concat (map (rmatch r2) (rmatch r1 s))"
| "rmatch (Alt r1 r2) s = rmatch r1 s @ rmatch r2 s"
| "rmatch (Star r) s =
     concat (map (\<lambda>t. if length t < length s then rmatch (Star r) t else [])
                 (rmatch r s)) @ [s]"

text \<open>\<open>pattern.search(s)\<close>, as a truth value.\<close>

fun search_from :: "regex \<Rightarrow> string \<Rightarrow> bool" where
  "search_from r [] = (rmatch r [] \<noteq> [])"
| "search_from r (c # cs) = (if rmatch r (c # cs) \<noteq> [] then True else search_from r cs)"

fun re_search :: "pattern \<Rightarrow> string \<Rightarrow> bool" where
  "re_search (Anchored r) s = (rmatch r s \<noteq> [])"
| "re_search (Unanchored r) s = search_from r s"

text \<open>
  \<open>re.sub(pattern, '', s)\<close>: every match, found from left to right, is removed. A match
  of the empty string removes nothing, and the scan moves on by one character.
\<close>

fun sub_from :: "regex \<Rightarrow> string \<Rightarrow> string" where
  "sub_from r [] = []"
| "sub_from r (c # cs) =
     (case rmatch r (c # cs) of
        [] \<Rightarrow> c # sub_from r cs
      | t # _ \<Rightarrow> if length t < Suc (length cs) then sub_from r t else c # sub_from r cs)"

fun re_sub :: "pattern \<Rightarrow> string \<Rightarrow> string" where
  "re_sub (Anchored r) s = (case rmatch r s of [] \<Rightarrow> s | t # _ \<Rightarrow> t)"
| "re_sub (Unanchored r) s = sub_from r s"

section \<open>Constants of the script\<close>

text \<open>\<open>LGPL_MATCH_THRESHOLD = .9\<close>. Python compares floats; the model compares exact rationals.\<close>

definition LGPL_MATCH_THRESHOLD :: rat where
  "LGPL_MATCH_THRESHOLD = 9 / 10"

text \<open>\<open>'/\*+'\<close>\<close>

definition C_COMMENT_BLOCK_START :: pattern where
  "C_COMMENT_BLOCK_START = Unanchored (Seq (Lit ''/'') (Seq (Lit ''*'') (Star (Lit ''*''))))"

text \<open>\<open>'^ *\* *'\<close>\<close>

definition C_COMMENT_BLOCK_MID :: pattern where
  "C_COMMENT_BLOCK_MID = Anchored (Seq (Star (Lit '' '')) (Seq (Lit ''*'') (Star (Lit '' ''))))"

text \<open>\<open>'\*/'\<close>\<close>

definition C_COMMENT_BLOCK_END :: pattern where
  "C_COMMENT_BLOCK_END = Unanchored (Lit ''*/'')"

text \<open>\<open>'^(;\**|@)'\<close>\<close>

definition ASM_COMMENT_PRE :: pattern where
  "ASM_COMMENT_PRE = Anchored (Alt (Seq (Lit '';'') (Star (Lit ''*''))) (Lit ''@''))"

text \<open>\<open>'^[^;@]'\<close>\<close>

definition ASM_NOT_COMMENT :: pattern where
  "ASM_NOT_COMMENT = Anchored (NotIn '';@'')"

text \<open>\<open>' *This file is part of FFmpeg'\<close>\<close>

definition FFMPEG_HEADER_START :: pattern where
  "FFMPEG_HEADER_START = Unanchored (Seq (Star (Lit '' '')) (Lit ''This file is part of FFmpeg''))"


definition FFMPEG_LGPL_REF :: string where
  "FFMPEG_LGPL_REF =
     [newline] @
     '' * This file is part of FFmpeg.'' @ [newline] @
     '' *'' @ [newline] @
     '' * FFmpeg is free software; you can redistribute it and/or'' @ [newline] @
     '' * modify it under the terms of the GNU Lesser General Public'' @ [newline] @
     '' * License as published by the Free Software Foundation; either'' @ [newline] @
     '' * version 2.1 of the License, or (at your option) any later version.'' @ [newline] @
     '' *'' @ [newline] @
     '' * FFmpeg is distributed in the hope that it will be useful,'' @ [newline] @
     '' * but WITHOUT ANY WARRANTY; without even the implied warranty of'' @ [newline] @
     '' * MERCHANTABILITY or FITNESS FOR A PARTICULAR PURPOSE.  See the GNU'' @ [newline] @
     '' * Lesser General Public License for more details.'' @ [newline] @
     '' *'' @ [newline] @
     '' * You should have received a copy of the GNU Lesser General Public'' @ [newline] @
     '' * License along with FFmpeg; if not, write to the Free Software'' @ [newline] @
     '' * Foundation, Inc., 51 Franklin Street, Fifth Floor, Boston, MA 02110-1301 USA'' @ [newline] @
     '' */''"

section \<open>Errors\<close>

text \<open>
  What stops the run: \<open>exit(message)\<close>, an \<open>open\<close> that fails (with the path), an
  index out of range, and \<open>os.path.relpath\<close> of an empty path.
\<close>

datatype error = SystemExit string | IOError string | IndexError | ValueError

section \<open>Reading and extracting the first comment block\<close>

definition ConcatLines :: "string list \<Rightarrow> string" where
  "ConcatLines lines = concat lines"

text \<open>
  \<open>open_file.readline()\<close> on the text that is left to read: the line with its line feed
  and the rest; at the end of the file the line is empty.
\<close>

fun readline :: "string \<Rightarrow> string \<times> string" where
  "readline [] = ([], [])"
| "readline (c # cs) =
     (if c = newline then ([c], cs)
      else (case readline cs of (l, rest) \<Rightarrow> (c # l, rest)))"

text \<open>
  \<open>StripCommentChars\<close>. The list is updated in place, index by index; for a C comment
  the first and the last line are read before anything else, which raises on an empty
  list.
\<close>

definition StripCommentChars :: "string list \<Rightarrow> bool \<Rightarrow> error + string list" where
  "StripCommentChars comment_lines is_asm =
     (if is_asm then
        Inr (fold (\<lambda>i ls. ls[i := re_sub ASM_COMMENT_PRE (ls ! i)])
                  [0 ..< length comment_lines] comment_lines)
      else if comment_lines = [] then Inl IndexError
      else
        let ls1 = comment_lines[0 := re_sub C_COMMENT_BLOCK_START (comment_lines ! 0)];
            ls2 = ls1[length ls1 - 1 := re_sub C_COMMENT_BLOCK_END (ls1 ! (length ls1 - 1))]
        in Inr (fold (\<lambda>i ls. ls[i := re_sub C_COMMENT_BLOCK_MID (ls ! i)])
                     [1 ..< length ls2] ls2))"

text \<open>
  The loop \<open>for _ in range(0, 100)\<close> of \<open>ExtractFirstCommentBlock\<close>: the count of
  iterations left, the two patterns, the text left to read, \<open>found_comment_start\<close> and
  \<open>lines\<close>; it returns \<open>found_comment_start\<close>, \<open>found_comment_end\<close> and \<open>lines\<close>.
\<close>

fun scan_lines ::
  "nat \<Rightarrow> pattern \<Rightarrow> pattern \<Rightarrow> string \<Rightarrow> bool \<Rightarrow> string list \<Rightarrow> bool \<times> bool \<times> string list"
where
  "scan_lines 0 comment_start_re comment_end_re f found_comment_start lines =
     (found_comment_start, False, lines)"
| "scan_lines (Suc n) comment_start_re comment_end_re f found_comment_start lines =
     (case readline f of (line, rest) \<Rightarrow>
        if \<not> (found_comment_start \<or> re_search comment_start_re line)
        then scan_lines n comment_start_re comment_end_re rest False lines
        else if re_search comment_end_re line then (True, True, lines @ [line])
        else scan_lines n comment_start_re comment_end_re rest True (lines @ [line]))"

text \<open>
  \<open>ExtractFirstCommentBlock\<close>. \<open>open_file\<close> gives the text of the file at a path, or
  nothing when it cannot be opened. \<open>None\<close> is the result when no block is found.
\<close>

definition is_asm_file :: "string \<Rightarrow> string \<Rightarrow> bool" where
  "is_asm_file file_path content =
     (if endswith file_path ''.S'' \<and> re_search ASM_COMMENT_PRE (fst (readline content))
      then True
      else endswith file_path ''.asm'')"

definition ExtractFirstCommentBlock ::
  "(string \<Rightarrow> string option) \<Rightarrow> string \<Rightarrow> error + string list option"
where
  "ExtractFirstCommentBlock open_file file_path =
     (case open_file file_path of
        None \<Rightarrow> Inl (IOError file_path)
      | Some content \<Rightarrow>
          let is_asm = is_asm_file file_path content;
              comment_start_re = (if is_asm then ASM_COMMENT_PRE else C_COMMENT_BLOCK_START);
              comment_end_re = (if is_asm then ASM_NOT_COMMENT else C_COMMENT_BLOCK_END)
          in (case scan_lines 100 comment_start_re comment_end_re content False [] of
                (found_comment_start, found_comment_end, lines) \<Rightarrow>
                  if \<not> (found_comment_start \<and> found_comment_end) then Inr None
                  else (case StripCommentChars lines is_asm of
                          Inl e \<Rightarrow> Inl e
                        | Inr stripped \<Rightarrow> Inr (Some stripped))))"

section \<open>Normalizing a comment block\<close>

text \<open>The loop of \<open>NormalizeCommentLines\<close> that looks for the header line, with \<open>line_index\<close>.\<close>

fun find_header :: "string list \<Rightarrow> nat \<Rightarrow> nat" where
  "find_header [] line_index = line_index"
| "find_header (line # rest) line_index =
     (if re_search FFMPEG_HEADER_START line then line_index
      else find_header rest (line_index + 1))"

definition NormalizeCommentLines :: "string list \<Rightarrow> string list option" where
  "NormalizeCommentLines comment_lines =
     (let line_index = find_header comment_lines 0
      in if line_index = length comment_lines then None
         else if line_index > 20 then None
         else Some (drop line_index comment_lines))"

section \<open>Paths (\<open>os.path\<close> on POSIX)\<close>

definition isabs :: "string \<Rightarrow> bool" where
  "isabs s = startswith s ''/''"

text \<open>\<open>os.path.join(a, b)\<close>, and \<open>os.path.join(*parts)\<close> for one part or more.\<close>

definition join :: "string \<Rightarrow> string \<Rightarrow> string" where
  "join a b =
     (if startswith b ''/'' then b
      else if a = [] \<or> endswith a ''/'' then a @ b
      else a @ ''/'' @ b)"

fun join_list :: "string list \<Rightarrow> string" where
  "join_list [] = []"
| "join_list (a # p) = fold (\<lambda>b path. join path b) p a"

text \<open>
  \<open>os.path.normpath\<close>: empty and \<open>.\<close> components go, \<open>..\<close> takes the component before
  it away, and one or two leading slashes are kept.
\<close>

definition normpath_step :: "nat \<Rightarrow> string \<Rightarrow> string list \<Rightarrow> string list" where
  "normpath_step initial_slashes component new_comps =
     (if component = [] \<or> component = ''.'' then new_comps
      else if component \<noteq> ''..'' \<or> (initial_slashes = 0 \<and> new_comps = [])
              \<or> (new_comps \<noteq> [] \<and> last new_comps = ''..'')
           then new_comps @ [component]
      else if new_comps \<noteq> [] then butlast new_comps
      else new_comps)"

definition normpath :: "string \<Rightarrow> string" where
  "normpath path =
     (if path = [] then ''.''
      else
        let initial_slashes =
              (if startswith path ''/''
               then (if startswith path ''//'' \<and> \<not> startswith path ''///'' then 2 else 1)
               else (0::nat));
            components = split_on (CHR ''/'') path;
            new_comps = fold (normpath_step initial_slashes) components [];
            path' = replicate initial_slashes (CHR ''/'') @ str_join ''/'' new_comps
        in if path' = [] then ''.'' else path')"

text \<open>\<open>os.path.abspath\<close>, with the current directory \<open>os.getcwd()\<close> as \<open>cwd\<close>.\<close>

definition abspath :: "string \<Rightarrow> string \<Rightarrow> string" where
  "abspath cwd path = normpath (if \<not> isabs path then join cwd path else path)"

text \<open>\<open>os.path.relpath(path, start)\<close>; it raises on an empty path.\<close>

definition relpath :: "string \<Rightarrow> string \<Rightarrow> string \<Rightarrow> error + string" where
  "relpath cwd path start =
     (if path = [] then Inl ValueError
      else
        let start_list = filter (\<lambda>x. x \<noteq> []) (split_on (CHR ''/'') (abspath cwd start));
            path_list = filter (\<lambda>x. x \<noteq> []) (split_on (CHR ''/'') (abspath cwd path));
            i = length (longest_common_prefix start_list path_list);
            rel_list = replicate (length start_list - i) ''..'' @ drop i path_list
        in if rel_list = [] then Inr ''.'' else Inr (join_list rel_list))"


section \<open>Licenses and the table of known files\<close>


definition DEFAULT_OUTPUT_FILE :: string where
  "DEFAULT_OUTPUT_FILE = ''CREDITS.chromium''"

text \<open>
  \<open>License\<close> is a named tuple whose fields hold their own names: each license is the
  string of its name, and the licenses sort as these strings do.
\<close>

datatype License = LGPL | MIPS | JPEG | OGG_MA_MR_2005


record FileInfo =
  license :: License
  license_digest :: string

definition KNOWN_FILE_BUCKETS :: "(string \<times> License \<times> string) list" where
  "KNOWN_FILE_BUCKETS = [
     (''libavcodec/codec_desc.c'', LGPL, ''091f9c6d1efc62038e516f5c67263962''),
     (''libavcodec/mdct_fixed_32.c'', MIPS, ''179c17c9dab77f95dc6540709b5fb8cd''),
     (''libavcodec/fft_fixed_32.c'', MIPS, ''179c17c9dab77f95dc6540709b5fb8cd''),
     (''libavcodec/fft_init_table.c'', MIPS, ''179c17c9dab77f95dc6540709b5fb8cd''),
     (''libavcodec/mips/aacdec_mips.c'', MIPS, ''a08afe43d908fe6625603d0cbc95da46''),
     (''libavcodec/mips/sbrdsp_mips.c'', MIPS, ''c34ece06ebe27e5a7611ef362962b048''),
     (''libavcodec/mips/aacpsdsp_mips.c'', MIPS, ''a08afe43d908fe6625603d0cbc95da46''),
     (''libavutil/mips/float_dsp_mips.c'', MIPS, ''fb9f51968ec8289768547144b920cf79''),
     (''libavcodec/mips/aacsbr_mips.c'', MIPS, ''82c53533b2576fe5d2c04880a46595f2''),
     (''libavutil/fixed_dsp.c'', MIPS, ''7a521412ac91287b3e1026885f6bd56f''),
     (''libavcodec/mips/aacdec_mips.h'', MIPS, ''c34ece06ebe27e5a7611ef362962b048''),
     (''libavcodec/mips/lsp_mips.h'', MIPS, ''eef419f576f738e66ca3bfc975a37996''),
     (''libavcodec/mips/aacsbr_mips.h'', MIPS, ''82c53533b2576fe5d2c04880a46595f2''),
     (''libavutil/mips/libm_mips.h'', MIPS, ''4b408982f2aa83fac9c020c61853bdae''),
     (''libavcodec/mips/amrwbdec_mips.h'', MIPS, ''4b408982f2aa83fac9c020c61853bdae''),
     (''libavcodec/fft_table.h'', MIPS, ''179c17c9dab77f95dc6540709b5fb8cd''),
     (''libavcodec/mips/compute_antialias_float.h'', MIPS, ''a7ff7e3157e3726cba79e022628d3b93''),
     (''libavcodec/mips/compute_antialias_fixed.h'', MIPS, ''97e366b4c71ad5ceca991d89044c414d''),
     (''libavutil/softfloat_tables.h'', MIPS, ''de3e5c962caa5c8249bef3085ef36bc8''),
     (''libavutil/fixed_dsp.h'', MIPS, ''4b408982f2aa83fac9c020c61853bdae''),
     (''libavcodec/jfdctint_template.c'', JPEG, ''d80cfd2e439eb700aed0f5bc44fef9b5''),
     (''libavcodec/jfdctfst.c'', JPEG, ''7dcfa68ad9c8fd940fb404ee3242e03f''),
     (''libavcodec/jrevdct.c'', JPEG, ''a9b8f5dcb74fa76a72069306b841b042''),
     (''libavformat/oggparseogm.c'', OGG_MA_MR_2005, ''ee65196bafec5d8e871e64bb739bdc79''),
     (''libavformat/oggdec.c'', OGG_MA_MR_2005, ''43ed5da1268cb2f104095c79410fd394''),
     (''libavformat/oggdec.h'', OGG_MA_MR_2005, ''ee65196bafec5d8e871e64bb739bdc79''),
     (''libavformat/oggparsevorbis.c'', OGG_MA_MR_2005, ''6c432580b4486564e43cd538370e3dbc'')
   ]"

section \<open>What the script takes from outside\<close>

text \<open>
  The current directory, the path of the script itself (\<open>__file__\<close>), the text of every
  file that can be opened, and two functions of the Python library that are not part of
  the script: the MD5 digest of a string in hexadecimal
  (\<open>hashlib.md5(s.encode('utf-8')).hexdigest()\<close>) and the similarity ratio of two strings
  (\<open>difflib.SequenceMatcher(None, a, b).ratio()\<close>).
\<close>

record environment =
  getcwd :: string
  script_file :: string
  open_file :: "string \<Rightarrow> string option"
  md5_hexdigest :: "string \<Rightarrow> string"
  sequence_ratio :: "string \<Rightarrow> string \<Rightarrow> rat"



section \<open>The class \<open>CreditsUpdater\<close>\<close>

text \<open>
  The dictionaries are association lists in the order of insertion, with one pair for
  each key. \<open>known_credits\<close> is a \<open>defaultdict(list)\<close>: a key appears when the first file
  is appended to its list.
\<close>

record CreditsUpdater =
  source_dir :: string
  output_file :: string
  difficult_files :: "string list"
  known_credits :: "(License \<times> string list) list"
  generated_credits :: "(string \<times> string) list"
  known_file_map :: "(string \<times> FileInfo) list"

text \<open>\<open>d[key].append(x)\<close> on a \<open>defaultdict(list)\<close>.\<close>

definition defaultdict_append :: "'k \<Rightarrow> 'v \<Rightarrow> ('k \<times> 'v list) list \<Rightarrow> ('k \<times> 'v list) list" where
  "defaultdict_append key x d =
     AList.update key ((case map_of d key of None \<Rightarrow> [] | Some xs \<Rightarrow> xs) @ [x]) d"

text \<open>\<open>__init__\<close>.\<close>

definition init :: "string \<Rightarrow> string \<Rightarrow> CreditsUpdater" where
  "init source_dir' output_file' =
     \<lparr> source_dir = source_dir',
       output_file = output_file',
       difficult_files = [],
       known_credits = [],
       generated_credits = [],
       known_file_map =
         fold (\<lambda>item m. case item of (path, lic, digest) \<Rightarrow>
                 AList.update path \<lparr> license = lic, license_digest = digest \<rparr> m)
              KNOWN_FILE_BUCKETS [] \<rparr>"

text \<open>
  A method returns the object as it has become, or the error that stopped it together
  with the object as it was at that moment.
\<close>

type_synonym 'a result = "(error \<times> CreditsUpdater) + 'a"

definition header_changed_message :: "string \<Rightarrow> string \<Rightarrow> string \<Rightarrow> string" where
  "header_changed_message file_path old_digest new_digest =
     ''File '' @ file_path @ '' header has changed (was: '' @ old_digest @ '' now: ''
       @ new_digest @ ''). Inspect the header and update the exceptions table to continue generating credits.''"

definition HandleNonLGPLFile ::
  "environment \<Rightarrow> CreditsUpdater \<Rightarrow> string list \<Rightarrow> string \<Rightarrow> CreditsUpdater result"
where
  "HandleNonLGPLFile env self comment_lines file_path =
     (case relpath (getcwd env) file_path (abspath (getcwd env) (source_dir self)) of
        Inl e \<Rightarrow> Inl (e, self)
      | Inr rel_file_path \<Rightarrow>
          (case map_of (known_file_map self) rel_file_path of
             Some file_license_info \<Rightarrow>
               let new_digest = md5_hexdigest env (ConcatLines comment_lines)
               in if new_digest \<noteq> license_digest file_license_info
                  then Inl (SystemExit (header_changed_message rel_file_path
                                          (license_digest file_license_info) new_digest),
                            self)
                  else Inr (self\<lparr> known_credits :=
                              defaultdict_append (license file_license_info) rel_file_path
                                (known_credits self) \<rparr>)
           | None \<Rightarrow>
               Inr (self\<lparr> generated_credits :=
                      AList.update rel_file_path (strip (ConcatLines comment_lines))
                        (generated_credits self) \<rparr>)))"

text \<open>
  \<open>ProcessFile\<close>. \<open>if not comment_lines\<close> and \<open>if normalized_lines\<close> take an empty list
  as they take \<open>None\<close>.
\<close>

definition ProcessFile ::
  "environment \<Rightarrow> CreditsUpdater \<Rightarrow> string \<Rightarrow> CreditsUpdater result"
where
  "ProcessFile env self path =
     (let file_path =
            (if \<not> isabs path then abspath (getcwd env) (join (source_dir self) path)
             else path)
      in case ExtractFirstCommentBlock (open_file env) file_path of
           Inl e \<Rightarrow> Inl (e, self)
         | Inr None \<Rightarrow> Inr (self\<lparr> difficult_files := difficult_files self @ [file_path] \<rparr>)
         | Inr (Some []) \<Rightarrow> Inr (self\<lparr> difficult_files := difficult_files self @ [file_path] \<rparr>)
         | Inr (Some comment_lines) \<Rightarrow>
             (case NormalizeCommentLines comment_lines of
                None \<Rightarrow> HandleNonLGPLFile env self comment_lines file_path
              | Some [] \<Rightarrow> HandleNonLGPLFile env self comment_lines file_path
              | Some normalized_lines \<Rightarrow>
                  let sim_ratio =
                        sequence_ratio env (ConcatLines normalized_lines) FFMPEG_LGPL_REF
                  in if sim_ratio \<ge> LGPL_MATCH_THRESHOLD
                     then Inr (self\<lparr> known_credits :=
                                 defaultdict_append LGPL file_path (known_credits self) \<rparr>)
                     else HandleNonLGPLFile env self comment_lines file_path))"




section \<open>Notions used to state the properties\<close>

text \<open>The first \<open>n\<close> lines of a text, as \<open>n\<close> calls of \<open>readline\<close> return them.\<close>

fun readlines_n :: "nat \<Rightarrow> string \<Rightarrow> string list" where
  "readlines_n 0 f = []"
| "readlines_n (Suc n) f = (case readline f of (line, rest) \<Rightarrow> line # readlines_n n rest)"

text \<open>
  What the scanning loop returns on the lines \<open>ls\<close> once the start of a comment has been
  seen: the lines up to the first one that matches the end pattern, that one included.
\<close>

definition scan_found :: "pattern \<Rightarrow> string list \<Rightarrow> string list \<Rightarrow> bool \<times> bool \<times> string list" where
  "scan_found comment_end_re ls acc =
     (let pre = takeWhile (\<lambda>l. \<not> re_search comment_end_re l) ls
      in if length pre = length ls then (True, False, acc @ ls)
         else (True, True, acc @ pre @ [ls ! length pre]))"

text \<open>
  The path under which \<open>ProcessFile\<close> reads a file: the path it is given when that is
  absolute, and else that path under \<open>source_dir\<close>, made absolute.
\<close>

definition absolute_file_path :: "environment \<Rightarrow> CreditsUpdater \<Rightarrow> string \<Rightarrow> string" where
  "absolute_file_path env self path =
     (if \<not> isabs path then abspath (getcwd env) (join (source_dir self) path) else path)"

text \<open>
  The three kinds of result that processing a file records: the object \<open>s'\<close> is the object
  \<open>self\<close> with one more unparseable file, with one more file in one bucket, or with the
  verbatim text of one path set.
\<close>

definition recorded_unparseable :: "CreditsUpdater \<Rightarrow> CreditsUpdater \<Rightarrow> string \<Rightarrow> bool" where
  "recorded_unparseable self s' p \<longleftrightarrow>
     s' = self\<lparr> difficult_files := difficult_files self @ [p] \<rparr>"

definition recorded_bucketed ::
  "CreditsUpdater \<Rightarrow> CreditsUpdater \<Rightarrow> License \<Rightarrow> string \<Rightarrow> bool" where
  "recorded_bucketed self s' lic p \<longleftrightarrow>
     s' = self\<lparr> known_credits := defaultdict_append lic p (known_credits self) \<rparr>"

definition recorded_verbatim ::
  "CreditsUpdater \<Rightarrow> CreditsUpdater \<Rightarrow> string \<Rightarrow> string \<Rightarrow> bool" where
  "recorded_verbatim self s' p t \<longleftrightarrow>
     s' = self\<lparr> generated_credits := AList.update p t (generated_credits self) \<rparr>"

text \<open>A string that is not empty and does not start with a slash.\<close>

definition relative_part :: "string \<Rightarrow> bool" where
  "relative_part x \<longleftrightarrow> x \<noteq> [] \<and> hd x \<noteq> CHR ''/''"





section \<open>An example source tree\<close>

text \<open>
  A small tree under \<open>/src/ffmpeg\<close> with the script in \<open>/tools\<close>, for running the
  definitions. The two library functions are stand-ins: the digest of every header is the
  one the table records for \<open>libavcodec/jrevdct.c\<close>, and the ratio is 0.95 for the header
  of \<open>lgpl.c\<close> and 0.5 for any other text.
\<close>

definition example_files :: "(string \<times> string) list" where
  "example_files =
     [(''/src/ffmpeg/custom.c'',
         ''/*'' @ [newline] @ '' * Copyright X'' @ [newline] @ '' */'' @ [newline] @ ''int x;''),
      (''/src/ffmpeg/libavcodec/jrevdct.c'',
         ''/*'' @ [newline] @ '' * jrevdct.c'' @ [newline] @ '' */'' @ [newline]),
      (''/src/ffmpeg/libavcodec/jfdctfst.c'',
         ''/*'' @ [newline] @ '' * jfdctfst.c'' @ [newline] @ '' */'' @ [newline]),
      (''/src/ffmpeg/lgpl.c'',
         ''/*'' @ [newline] @ '' * This file is part of FFmpeg.'' @ [newline] @ '' */'' @ [newline]),
      (''/src/ffmpeg/altered.c'',
         ''/*'' @ [newline] @ '' * This file is part of FFmpeg, altered.'' @ [newline] @ '' */''
           @ [newline]),
      (''/src/ffmpeg/libavcodec/codec_desc.c'',
         ''/*'' @ [newline] @ '' * This file is part of FFmpeg.'' @ [newline]
           @ '' * Codec descriptors'' @ [newline] @ '' */'' @ [newline]),
      (''/src/ffmpeg/none.c'', ''int x;'' @ [newline]),
      (''/src/ffmpeg/LICENSE.md'', ''# License'' @ [newline]),
      (''/tools/license_texts/mips.txt'', ''MIPS license'' @ [newline]),
      (''/tools/license_texts/jpeg.txt'', ''JPEG license'' @ [newline]),
      (''/tools/license_texts/full_lgpl.txt'', ''GNU LESSER GENERAL PUBLIC LICENSE'' @ [newline]),
      (''/tools/license_texts/oggparse_ahlberg_rullgayrd_2005.txt'', ''Ogg license'' @ [newline])]"

definition example_env :: environment where
  "example_env =
     \<lparr> getcwd = ''/src/ffmpeg'',
       script_file = ''/tools/credits_updater.py'',
       open_file = map_of example_files,
       md5_hexdigest = (\<lambda>s. ''a9b8f5dcb74fa76a72069306b841b042''),
       sequence_ratio =
         (\<lambda>a b. if a = ''This file is part of FFmpeg.'' @ [newline] @ '' '' @ [newline]
                 then 19 / 20 else 1 / 2) \<rparr>"

text \<open>
  The same tree where the digest of every header is the one the table records for
  \<open>libavcodec/codec_desc.c\<close>, the file of the table whose bucket is \<open>LGPL\<close>.
\<close>

definition example_env_codec_desc :: environment where
  "example_env_codec_desc =
     example_env \<lparr> md5_hexdigest := (\<lambda>s. ''091f9c6d1efc62038e516f5c67263962'') \<rparr>"

definition example_updater :: CreditsUpdater where
  "example_updater = init ''/src/ffmpeg'' DEFAULT_OUTPUT_FILE"



section \<open>The similarity ratio\<close>

text \<open>
  Modelled from the spec: the similarity ratio of two strings, which the script takes
  from \<open>difflib.SequenceMatcher(None, a, b).ratio()\<close> of the Python library; \<open>difflib\<close>
  is not among the sources of the repository. The specification (section 4.3) gives it
  as a sequence-matching algorithm that finds the longest matching blocks recursively
  and computes \<open>2*M / T\<close>, where \<open>M\<close> is the total of the matched characters and \<open>T\<close> is the
  total length of the two strings.

  \<open>match_candidates a b\<close> lists, for every start \<open>i\<close> in \<open>a\<close> and \<open>j\<close> in \<open>b\<close>, the block
  that starts there with the length of the common prefix of the two rests;
  \<open>longest_match\<close> takes the first longest of them; \<open>matched_total\<close> is \<open>M\<close>: the length
  of the longest block, and the same again to the left and to the right of it.
\<close>

definition match_candidates :: "string \<Rightarrow> string \<Rightarrow> (nat \<times> nat \<times> nat) list" where
  "match_candidates a b =
     concat (map (\<lambda>i. map (\<lambda>j. (i, j, length (longest_common_prefix (drop i a) (drop j b))))
                         [0 ..< length b])
                 [0 ..< length a])"

definition better_match :: "nat \<times> nat \<times> nat \<Rightarrow> nat \<times> nat \<times> nat \<Rightarrow> nat \<times> nat \<times> nat" where
  "better_match c best = (if snd (snd c) > snd (snd best) then c else best)"

definition longest_match :: "string \<Rightarrow> string \<Rightarrow> nat \<times> nat \<times> nat" where
  "longest_match a b = fold better_match (match_candidates a b) (0, 0, 0)"

function matched_total :: "string \<Rightarrow> string \<Rightarrow> nat" where
  "matched_total a b =
     (case longest_match a b of
        (i, j, k) \<Rightarrow>
          if k = 0 then 0
          else matched_total (take i a) (take j b) + k
               + matched_total (drop (i + k) a) (drop (j + k) b))"
  by pat_completeness auto
termination
proof -
  have pick: "fold better_match cs best = best \<or> fold better_match cs best \<in> set cs"
    for cs best
  proof (induction cs arbitrary: best)
    case Nil
    show ?case by simp
  next
    case (Cons c cs)
    have "better_match c best = c \<or> better_match c best = best"
      by (simp add: better_match_def)
    with Cons[of "better_match c best"] show ?case by auto
  qed
  have bound: "i < length a \<and> j < length b"
    if "(i, y) = longest_match a b" and "(j, k) = y" and "k \<noteq> 0" for a b i j k y
  proof -
    from that have "fold better_match (match_candidates a b) (0, 0, 0) = (i, j, k)"
      by (simp add: longest_match_def)
    with pick[of "match_candidates a b" "(0, 0, 0)"] that(3)
    have "(i, j, k) \<in> set (match_candidates a b)"
      by auto
    then show ?thesis by (auto simp: match_candidates_def)
  qed
  show ?thesis
  proof (relation "measure (\<lambda>(a, b). length a + length b)")
    show "wf (measure (\<lambda>(a, b). length a + length b))" by simp
  next
    fix a b :: string and i j k :: nat and y :: "nat \<times> nat"
    assume h: "(i, y) = longest_match a b" "(j, k) = y" "k \<noteq> 0"
    from bound[OF h]
    show "((take i a, take j b), a, b) \<in> measure (\<lambda>(a, b). length a + length b)"
      by simp
  next
    fix a b :: string and i j k :: nat and y :: "nat \<times> nat"
    assume h: "(i, y) = longest_match a b" "(j, k) = y" "k \<noteq> 0"
    from bound[OF h] h(3)
    show "((drop (i + k) a, drop (j + k) b), a, b) \<in> measure (\<lambda>(a, b). length a + length b)"
      by auto
  qed
qed

definition ratio_spec :: "string \<Rightarrow> string \<Rightarrow> rat" where
  "ratio_spec a b = of_nat (2 * matched_total a b) / of_nat (length a + length b)"

section \<open>Regular expressions: what the patterns of the script match\<close>

declare rmatch.simps(5) [simp del]

lemma rmatch_Star_self: "s \<in> set (rmatch (Star r) s)"
  by (subst rmatch.simps(5)) simp


lemma rmatch_Seq_nonempty:
  "rmatch (Seq r1 r2) s \<noteq> [] \<longleftrightarrow> (\<exists>u\<in>set (rmatch r1 s). rmatch r2 u \<noteq> [])"
  by simp

lemma rmatch_suffix: "t \<in> set (rmatch r s) \<Longrightarrow> suffix t s"
proof (induction r s arbitrary: t rule: rmatch.induct)
  case (1 w s)
  then show ?case by (auto simp: suffix_drop split: if_splits)
next
  case (2 cs s)
  then show ?case by (auto simp: suffix_ConsI split: list.splits if_splits)
next
  case (3 r1 r2 s)
  then show ?case by (auto intro: suffix_order.trans)
next
  case (4 r1 r2 s)
  then show ?case by auto
next
  case (5 r s)
  from "5.prems" have "t = s \<or> (\<exists>u\<in>set (rmatch r s). length u < length s \<and> t \<in> set (rmatch (Star r) u))"
    by (subst (asm) rmatch.simps(5)) (auto split: if_splits)
  then show ?case
  proof
    assume "t = s" then show ?thesis by simp
  next
    assume "\<exists>u\<in>set (rmatch r s). length u < length s \<and> t \<in> set (rmatch (Star r) u)"
    then obtain u where u: "u \<in> set (rmatch r s)" "length u < length s" "t \<in> set (rmatch (Star r) u)"
      by blast
    from "5.IH"(1)[OF u(1)] have "suffix u s" .
    moreover from "5.IH"(2)[OF u(1) u(2) u(3)] have "suffix t u" .
    ultimately show ?thesis by (meson suffix_order.trans)
  qed
qed

lemma search_from_iff:
  "search_from r s \<longleftrightarrow> (\<exists>t. suffix t s \<and> rmatch r t \<noteq> [])"
proof (induction s)
  case Nil
  then show ?case by simp
next
  case (Cons c cs)
  show ?case
    by (auto simp: Cons suffix_Cons)
qed

lemma sublist_iff_suffix_prefix: "sublist w s \<longleftrightarrow> (\<exists>t. suffix t s \<and> prefix w t)"
  by (metis sublist_altdef')

lemma search_C_COMMENT_BLOCK_END: "re_search C_COMMENT_BLOCK_END s \<longleftrightarrow> sublist ''*/'' s"
proof -
  have "re_search C_COMMENT_BLOCK_END s \<longleftrightarrow> (\<exists>t. suffix t s \<and> prefix ''*/'' t)"
    unfolding C_COMMENT_BLOCK_END_def re_search.simps search_from_iff by auto
  then show ?thesis by (simp only: sublist_iff_suffix_prefix)
qed





lemma rmatch_header_iff:
  "(\<exists>t. suffix t s \<and> rmatch (Seq (Star (Lit '' '')) (Lit w)) t \<noteq> []) \<longleftrightarrow> (\<exists>t. suffix t s \<and> prefix w t)"
proof
  assume "\<exists>t. suffix t s \<and> rmatch (Seq (Star (Lit '' '')) (Lit w)) t \<noteq> []"
  then obtain t where t: "suffix t s" "rmatch (Seq (Star (Lit '' '')) (Lit w)) t \<noteq> []" by blast
  then obtain u where u: "u \<in> set (rmatch (Star (Lit '' '')) t)" "rmatch (Lit w) u \<noteq> []"
    unfolding rmatch_Seq_nonempty by blast
  from u(1) have "suffix u t" by (rule rmatch_suffix)
  with t(1) have "suffix u s" by (meson suffix_order.trans)
  moreover from u(2) have "prefix w u" by (simp split: if_splits)
  ultimately show "\<exists>t. suffix t s \<and> prefix w t" by blast
next
  assume "\<exists>t. suffix t s \<and> prefix w t"
  then obtain t where t: "suffix t s" "prefix w t" by blast
  have "t \<in> set (rmatch (Star (Lit '' '')) t)" by (rule rmatch_Star_self)
  moreover from t(2) have "rmatch (Lit w) t \<noteq> []" by simp
  ultimately have "rmatch (Seq (Star (Lit '' '')) (Lit w)) t \<noteq> []"
    unfolding rmatch_Seq_nonempty by blast
  with t(1) show "\<exists>t. suffix t s \<and> rmatch (Seq (Star (Lit '' '')) (Lit w)) t \<noteq> []" by blast
qed

lemma search_FFMPEG_HEADER_START:
  "re_search FFMPEG_HEADER_START s \<longleftrightarrow> sublist ''This file is part of FFmpeg'' s"
  unfolding FFMPEG_HEADER_START_def re_search.simps search_from_iff rmatch_header_iff
  by (simp only: sublist_iff_suffix_prefix)

section \<open>Lists\<close>

lemma length_takeWhile_first:
  assumes "i < length ls" and "P (ls ! i)" and "\<forall>k<i. \<not> P (ls ! k)"
  shows "length (takeWhile (\<lambda>l. \<not> P l) ls) = i"
proof -
  have "takeWhile (\<lambda>l. \<not> P l) ls = take i ls"
    using assms by (intro takeWhile_eq_take_P_nth) auto
  with assms(1) show ?thesis by simp
qed

lemma length_takeWhile_none:
  "(\<forall>l\<in>set ls. \<not> P l) \<Longrightarrow> length (takeWhile (\<lambda>l. \<not> P l) ls) = length ls"
  by (induction ls) simp_all

lemma length_takeWhile_less:
  "length (takeWhile (\<lambda>l. \<not> P l) ls) < length ls \<Longrightarrow> P (ls ! length (takeWhile (\<lambda>l. \<not> P l) ls))"
  using nth_length_takeWhile[of "\<lambda>l. \<not> P l" ls] by simp




lemma fold_update_length [simp]:
  "length (fold (\<lambda>i ls. ls[i := f (ls ! i)]) is ls) = length ls"
  by (induction "is" arbitrary: ls) simp_all

lemma fold_update_nth:
  "k < length ls \<Longrightarrow>
   fold (\<lambda>i ls. ls[i := f (ls ! i)]) [a ..< b] ls ! k
     = (if a \<le> k \<and> k < b then f (ls ! k) else ls ! k)"
proof (induction b arbitrary: k)
  case 0
  then show ?case by simp
next
  case (Suc b)
  show ?case
  proof (cases "a \<le> b")
    case True
    with Suc.prems Suc.IH[of k] Suc.IH[of b] show ?thesis
      by (cases "b < length ls") (auto simp: nth_list_update)
  next
    case False
    then show ?thesis by auto
  qed
qed

lemma fold_update_map:
  "fold (\<lambda>i ls. ls[i := f (ls ! i)]) [a ..< length ls] ls = take a ls @ map f (drop a ls)"
  by (rule nth_equalityI) (auto simp: fold_update_nth nth_append)

section \<open>The extractor\<close>


lemma scan_lines_found:
  "scan_lines n st en f True acc = scan_found en (readlines_n n f) acc"
  by (induction n arbitrary: f acc) (auto simp: scan_found_def Let_def split: prod.splits)

lemma scan_lines_not_found:
  "scan_lines n st en f False acc =
     (let ls = dropWhile (\<lambda>l. \<not> re_search st l) (readlines_n n f)
      in if ls = [] then (False, False, acc) else scan_found en ls acc)"
proof (induction n arbitrary: f acc)
  case 0
  show ?case by simp
next
  case (Suc n)
  obtain line rest where r: "readline f = (line, rest)" by (cases "readline f")
  show ?case
  proof (cases "re_search st line")
    case False
    with r Suc show ?thesis by simp
  next
    case True
    with r show ?thesis
      by (auto simp: scan_lines_found scan_found_def Let_def)
  qed
qed

lemma StripCommentChars_asm:
  "StripCommentChars ls True = Inr (map (re_sub ASM_COMMENT_PRE) ls)"
  using fold_update_map[of "re_sub ASM_COMMENT_PRE" 0 ls] by (simp add: StripCommentChars_def)

lemma StripCommentChars_C_single:
  "StripCommentChars [x] False
     = Inr [re_sub C_COMMENT_BLOCK_END (re_sub C_COMMENT_BLOCK_START x)]"
  by (simp add: StripCommentChars_def)


lemma StripCommentChars_C_length:
  "ls \<noteq> [] \<Longrightarrow> \<exists>stripped. StripCommentChars ls False = Inr stripped \<and> length stripped = length ls"
  by (simp add: StripCommentChars_def Let_def)

section \<open>The normalizer\<close>

lemma find_header_takeWhile:
  "find_header ls n = n + length (takeWhile (\<lambda>l. \<not> re_search FFMPEG_HEADER_START l) ls)"
  by (induction ls arbitrary: n) simp_all


section \<open>Paths\<close>

lemma isabs_iff: "isabs s \<longleftrightarrow> (\<exists>t. s = CHR ''/'' # t)"
  by (cases s) (auto simp: isabs_def startswith_def)

lemma normpath_nonempty: "normpath p \<noteq> []"
  by (simp add: normpath_def Let_def)

lemma isabs_normpath: "isabs p \<Longrightarrow> isabs (normpath p)"
  by (auto simp: normpath_def Let_def isabs_iff startswith_def numeral_2_eq_2)

lemma isabs_join: "isabs a \<Longrightarrow> isabs (join a b)"
  by (cases b) (auto simp: join_def isabs_iff startswith_def endswith_def)

lemma isabs_abspath: "isabs cwd \<Longrightarrow> isabs (abspath cwd p)"
  by (simp add: abspath_def isabs_normpath isabs_join)

lemma split_on_no_sep: "x \<in> set (split_on c s) \<Longrightarrow> c \<notin> set x"
proof (induction s arbitrary: x)
  case Nil
  then show ?case by simp
next
  case (Cons a s)
  then show ?case
    by (cases "split_on c s") (auto split: if_splits)
qed

lemma relative_part_not_isabs: "relative_part x \<Longrightarrow> \<not> isabs x"
  by (auto simp: relative_part_def isabs_iff)

lemma join_relative_part:
  "relative_part a \<Longrightarrow> relative_part b \<Longrightarrow> relative_part (join a b)"
  by (cases a; cases b) (auto simp: relative_part_def join_def startswith_def)

lemma fold_join_relative_part:
  "relative_part a \<Longrightarrow> \<forall>b\<in>set p. relative_part b \<Longrightarrow> relative_part (fold (\<lambda>b path. join path b) p a)"
  by (induction p arbitrary: a) (simp_all add: join_relative_part)

lemma join_list_relative_part:
  "xs \<noteq> [] \<Longrightarrow> \<forall>x\<in>set xs. relative_part x \<Longrightarrow> relative_part (join_list xs)"
  by (cases xs) (simp_all add: fold_join_relative_part)

lemma split_parts_relative:
  "x \<in> set (filter (\<lambda>x. x \<noteq> []) (split_on (CHR ''/'') s)) \<Longrightarrow> relative_part x"
  using split_on_no_sep[of x "CHR ''/''" s] by (cases x) (auto simp: relative_part_def)

lemma relpath_relative:
  assumes "relpath cwd p start = Inr r"
  shows "relative_part r"
proof -
  let ?sl = "filter (\<lambda>x. x \<noteq> []) (split_on (CHR ''/'') (abspath cwd start))"
  let ?pl = "filter (\<lambda>x. x \<noteq> []) (split_on (CHR ''/'') (abspath cwd p))"
  let ?i = "length (longest_common_prefix ?sl ?pl)"
  let ?rl = "replicate (length ?sl - ?i) ''..'' @ drop ?i ?pl"
  have all: "\<forall>x\<in>set ?rl. relative_part x"
  proof
    fix x assume "x \<in> set ?rl"
    then have "x = ''..'' \<or> x \<in> set ?pl"
      by (auto dest: in_set_dropD)
    then show "relative_part x"
    proof
      assume "x = ''..''" then show ?thesis by (simp add: relative_part_def)
    next
      assume "x \<in> set ?pl" then show ?thesis by (rule split_parts_relative)
    qed
  qed
  show ?thesis
  proof (cases "?rl = []")
    case True
    with assms have "r = ''.''"
      by (auto simp: relpath_def Let_def split: if_splits)
    then show ?thesis by (simp add: relative_part_def)
  next
    case False
    with assms have "r = join_list ?rl"
      by (auto simp: relpath_def Let_def split: if_splits)
    with False all show ?thesis by (simp add: join_list_relative_part)
  qed
qed

lemma relpath_total: "p \<noteq> [] \<Longrightarrow> \<exists>r. relpath cwd p start = Inr r"
  by (simp add: relpath_def Let_def)

lemma relpath_not_isabs: "relpath cwd p start = Inr r \<Longrightarrow> \<not> isabs r"
  by (simp add: relpath_relative relative_part_not_isabs)

section \<open>The updater\<close>

lemma map_of_defaultdict_append:
  "map_of (defaultdict_append k x d)
     = (map_of d)(k \<mapsto> (case map_of d k of None \<Rightarrow> [] | Some xs \<Rightarrow> xs) @ [x])"
  by (simp add: defaultdict_append_def update_conv')

lemma defaultdict_append_neq: "defaultdict_append k x d \<noteq> d"
proof
  assume "defaultdict_append k x d = d"
  then have "map_of (defaultdict_append k x d) k = map_of d k" by simp
  then show False
    by (simp add: map_of_defaultdict_append split: option.splits)
qed

lemma defaultdict_append_inj:
  assumes "defaultdict_append k x d = defaultdict_append k' x' d"
  shows "k = k' \<and> x = x'"
proof -
  from assms have m: "map_of (defaultdict_append k x d) = map_of (defaultdict_append k' x' d)"
    by simp
  have k: "k = k'"
  proof (rule ccontr)
    assume "k \<noteq> k'"
    with fun_cong[OF m, of k] show False
      by (simp add: map_of_defaultdict_append split: option.splits)
  qed
  with fun_cong[OF m, of k] have "x = x'"
    by (simp add: map_of_defaultdict_append)
  with k show ?thesis by simp
qed

lemma NormalizeCommentLines_nonempty: "NormalizeCommentLines ls = Some nl \<Longrightarrow> nl \<noteq> []"
proof -
  assume a: "NormalizeCommentLines ls = Some nl"
  have "find_header ls 0 \<le> length ls"
    by (simp add: find_header_takeWhile length_takeWhile_le)
  with a show ?thesis
    by (auto simp: NormalizeCommentLines_def Let_def split: if_splits)
qed

lemma scan_found_nonempty: "scan_found en ls acc = (b, True, out) \<Longrightarrow> out \<noteq> []"
  by (auto simp: scan_found_def Let_def split: if_splits)

lemma scan_lines_nonempty:
  "scan_lines n st en f False [] = (b, True, out) \<Longrightarrow> out \<noteq> []"
  by (auto simp: scan_lines_not_found Let_def split: if_splits dest: scan_found_nonempty)

lemma ExtractFirstCommentBlock_cases:
  assumes "files p = Some content"
  shows "ExtractFirstCommentBlock files p = Inr None
         \<or> (\<exists>ls. ExtractFirstCommentBlock files p = Inr (Some ls) \<and> ls \<noteq> [])"
proof -
  let ?asm = "is_asm_file p content"
  let ?st = "if ?asm then ASM_COMMENT_PRE else C_COMMENT_BLOCK_START"
  let ?en = "if ?asm then ASM_NOT_COMMENT else C_COMMENT_BLOCK_END"
  obtain a b out where sc: "scan_lines 100 ?st ?en content False [] = (a, b, out)"
    by (cases "scan_lines 100 ?st ?en content False []") auto
  show ?thesis
  proof (cases "a \<and> b")
    case False
    with assms sc show ?thesis by (auto simp: ExtractFirstCommentBlock_def Let_def)
  next
    case True
    with sc have ne: "out \<noteq> []" by (auto dest: scan_lines_nonempty)
    show ?thesis
    proof (cases ?asm)
      case True
      with assms sc \<open>a \<and> b\<close> ne show ?thesis
        by (simp add: ExtractFirstCommentBlock_def Let_def StripCommentChars_asm)
    next
      case False
      from StripCommentChars_C_length[OF ne] obtain stripped where
        "StripCommentChars out False = Inr stripped" "length stripped = length out" by blast
      with assms sc \<open>a \<and> b\<close> ne False show ?thesis
        by (auto simp: ExtractFirstCommentBlock_def Let_def)
    qed
  qed
qed

lemma absolute_file_path_isabs:
  "isabs (getcwd env) \<Longrightarrow> isabs (absolute_file_path env self path)"
  by (simp add: absolute_file_path_def isabs_abspath)

lemma absolute_file_path_nonempty: "absolute_file_path env self path \<noteq> []"
  by (auto simp: absolute_file_path_def abspath_def normpath_nonempty isabs_iff)

lemma ProcessFile_unfold:
  "ProcessFile env self path =
     (case ExtractFirstCommentBlock (open_file env) (absolute_file_path env self path) of
        Inl e \<Rightarrow> Inl (e, self)
      | Inr None \<Rightarrow>
          Inr (self\<lparr> difficult_files := difficult_files self @ [absolute_file_path env self path] \<rparr>)
      | Inr (Some []) \<Rightarrow>
          Inr (self\<lparr> difficult_files := difficult_files self @ [absolute_file_path env self path] \<rparr>)
      | Inr (Some comment_lines) \<Rightarrow>
          (case NormalizeCommentLines comment_lines of
             None \<Rightarrow> HandleNonLGPLFile env self comment_lines (absolute_file_path env self path)
           | Some [] \<Rightarrow> HandleNonLGPLFile env self comment_lines (absolute_file_path env self path)
           | Some normalized_lines \<Rightarrow>
               if sequence_ratio env (ConcatLines normalized_lines) FFMPEG_LGPL_REF
                    \<ge> LGPL_MATCH_THRESHOLD
               then Inr (self\<lparr> known_credits :=
                           defaultdict_append LGPL (absolute_file_path env self path)
                             (known_credits self) \<rparr>)
               else HandleNonLGPLFile env self comment_lines (absolute_file_path env self path)))"
  unfolding ProcessFile_def absolute_file_path_def Let_def
  by (simp split: sum.splits option.splits list.splits)

lemma sublist_header_changed_message:
  "sublist p (header_changed_message p old new)"
  "sublist old (header_changed_message p old new)"
  "sublist new (header_changed_message p old new)"
proof -
  let ?tail = "''). Inspect the header and update the exceptions table to continue generating credits.''"
  show "sublist p (header_changed_message p old new)"
    unfolding sublist_def header_changed_message_def
    by (intro exI[of _ "''File ''"]
          exI[of _ "'' header has changed (was: '' @ old @ '' now: '' @ new @ ?tail"]) simp
  show "sublist old (header_changed_message p old new)"
    unfolding sublist_def header_changed_message_def
    by (intro exI[of _ "''File '' @ p @ '' header has changed (was: ''"]
          exI[of _ "'' now: '' @ new @ ?tail"]) simp
  show "sublist new (header_changed_message p old new)"
    unfolding sublist_def header_changed_message_def
    by (intro exI[of _ "''File '' @ p @ '' header has changed (was: '' @ old @ '' now: ''"]
          exI[of _ "?tail"]) simp
qed

lemma strip_decompose:
  "\<exists>pre post. s = pre @ strip s @ post \<and> (\<forall>c\<in>set pre. isspace c) \<and> (\<forall>c\<in>set post. isspace c)"
proof -
  let ?d = "dropWhile isspace s"
  have 1: "s = takeWhile isspace s @ ?d" by simp
  have 2: "rev ?d = takeWhile isspace (rev ?d) @ dropWhile isspace (rev ?d)" by simp
  have "?d = rev (rev ?d)" by simp
  also have "\<dots> = rev (dropWhile isspace (rev ?d)) @ rev (takeWhile isspace (rev ?d))"
    by (subst 2) (simp only: rev_append)
  finally have 3: "?d = strip s @ rev (takeWhile isspace (rev ?d))"
    by (simp add: strip_def)
  have "s = takeWhile isspace s @ strip s @ rev (takeWhile isspace (rev ?d))"
    using 1 3 by metis
  moreover have "\<forall>c\<in>set (takeWhile isspace s). isspace c"
    by (auto dest: set_takeWhileD)
  moreover have "\<forall>c\<in>set (rev (takeWhile isspace (rev ?d))). isspace c"
    by (auto dest: set_takeWhileD)
  ultimately show ?thesis by blast
qed

lemma recorded_unparseable_excl:
  assumes "recorded_unparseable self s' p"
  shows "\<not> recorded_bucketed self s' lic q" and "\<not> recorded_verbatim self s' q t"
proof -
  from assms have d: "difficult_files s' = difficult_files self @ [p]"
    by (simp add: recorded_unparseable_def)
  show "\<not> recorded_bucketed self s' lic q"
  proof
    assume "recorded_bucketed self s' lic q"
    then have "difficult_files s' = difficult_files self" by (simp add: recorded_bucketed_def)
    with d show False by simp
  qed
  show "\<not> recorded_verbatim self s' q t"
  proof
    assume "recorded_verbatim self s' q t"
    then have "difficult_files s' = difficult_files self" by (simp add: recorded_verbatim_def)
    with d show False by simp
  qed
qed

lemma recorded_bucketed_excl:
  assumes "recorded_bucketed self s' lic p"
  shows "\<not> recorded_unparseable self s' q" and "\<not> recorded_verbatim self s' q t"
    and "recorded_bucketed self s' lic' p' \<Longrightarrow> lic' = lic \<and> p' = p"
proof -
  from assms have k: "known_credits s' = defaultdict_append lic p (known_credits self)"
    by (simp add: recorded_bucketed_def)
  show "\<not> recorded_unparseable self s' q"
    using assms recorded_unparseable_excl(1) by blast
  show "\<not> recorded_verbatim self s' q t"
  proof
    assume "recorded_verbatim self s' q t"
    then have "known_credits s' = known_credits self" by (simp add: recorded_verbatim_def)
    with k show False by (metis defaultdict_append_neq)
  qed
  show "lic' = lic \<and> p' = p" if "recorded_bucketed self s' lic' p'"
  proof -
    from that have "known_credits s' = defaultdict_append lic' p' (known_credits self)"
      by (simp add: recorded_bucketed_def)
    with k show ?thesis using defaultdict_append_inj by metis
  qed
qed

lemma recorded_verbatim_excl:
  assumes "recorded_verbatim self s' p t"
  shows "\<not> recorded_unparseable self s' q" and "\<not> recorded_bucketed self s' lic q"
    and "map_of (generated_credits s') p = Some t"
    and "q \<noteq> p \<Longrightarrow> map_of (generated_credits s') q = map_of (generated_credits self) q"
proof -
  show "\<not> recorded_unparseable self s' q"
    using assms recorded_unparseable_excl(2) by blast
  show "\<not> recorded_bucketed self s' lic q"
    using assms recorded_bucketed_excl(2) by blast
  from assms have g: "generated_credits s' = AList.update p t (generated_credits self)"
    by (simp add: recorded_verbatim_def)
  then show "map_of (generated_credits s') p = Some t" by (simp add: update_conv')
  from g show "map_of (generated_credits s') q = map_of (generated_credits self) q" if "q \<noteq> p"
    using that by (simp add: update_conv')
qed




lemma ExtractFirstCommentBlock_Some_nonempty:
  assumes "ExtractFirstCommentBlock files p = Inr (Some ls)"
  shows "ls \<noteq> []"
proof -
  from assms obtain content where c: "files p = Some content"
    by (cases "files p") (auto simp: ExtractFirstCommentBlock_def)
  from ExtractFirstCommentBlock_cases[of files p content] c assms show ?thesis by auto
qed

lemma ProcessFile_Some:
  assumes "ExtractFirstCommentBlock (open_file env) (absolute_file_path env self path)
             = Inr (Some comment_lines)"
  shows "ProcessFile env self path =
      (case NormalizeCommentLines comment_lines of
         None \<Rightarrow> HandleNonLGPLFile env self comment_lines (absolute_file_path env self path)
       | Some normalized_lines \<Rightarrow>
           if sequence_ratio env (ConcatLines normalized_lines) FFMPEG_LGPL_REF
                \<ge> LGPL_MATCH_THRESHOLD
           then Inr (self\<lparr> known_credits :=
                       defaultdict_append LGPL (absolute_file_path env self path)
                         (known_credits self) \<rparr>)
           else HandleNonLGPLFile env self comment_lines (absolute_file_path env self path))"
proof -
  from assms have ne: "comment_lines \<noteq> []" by (rule ExtractFirstCommentBlock_Some_nonempty)
  then obtain l ls where cl: "comment_lines = l # ls" by (cases comment_lines) auto
  show ?thesis
  proof (cases "NormalizeCommentLines comment_lines")
    case None
    with assms cl show ?thesis by (simp add: ProcessFile_unfold)
  next
    case (Some nl)
    then have "nl \<noteq> []" by (rule NormalizeCommentLines_nonempty)
    then obtain n ns where "nl = n # ns" by (cases nl) auto
    with Some assms cl show ?thesis by (simp add: ProcessFile_unfold)
  qed
qed



section \<open>Writing the credits\<close>



lemma distinct_defaultdict_append:
  "distinct (map fst d) \<Longrightarrow> distinct (map fst (defaultdict_append k x d))"
  by (simp add: defaultdict_append_def distinct_update)

section \<open>The similarity ratio of the specification\<close>

declare matched_total.simps [simp del]

lemma fold_better_match_keep:
  "\<forall>c\<in>set cs. snd (snd c) \<le> snd (snd best) \<Longrightarrow> fold better_match cs best = best"
  by (induction cs) (auto simp: better_match_def)

lemma match_candidates_bound:
  "(i, j, k) \<in> set (match_candidates a b) \<Longrightarrow> k \<le> length a \<and> k \<le> length b"
proof -
  assume "(i, j, k) \<in> set (match_candidates a b)"
  then have k: "k = length (longest_common_prefix (drop i a) (drop j b))"
    by (auto simp: match_candidates_def)
  have "length (longest_common_prefix (drop i a) (drop j b)) \<le> length (drop i a)"
    by (rule prefix_length_le) (rule longest_common_prefix_prefix1)
  moreover have "length (longest_common_prefix (drop i a) (drop j b)) \<le> length (drop j b)"
    by (rule prefix_length_le) (rule longest_common_prefix_prefix2)
  ultimately show ?thesis using k by auto
qed

lemma longest_common_prefix_same: "longest_common_prefix xs xs = xs"
  by (induction xs) simp_all

lemma match_candidates_Cons:
  "match_candidates (x # xs) (y # ys) =
     (0, 0, length (longest_common_prefix (x # xs) (y # ys)))
     # map (\<lambda>j. (0, j, length (longest_common_prefix (x # xs) (drop j (y # ys)))))
           [1 ..< Suc (length ys)]
     @ concat (map (\<lambda>i. map (\<lambda>j. (i, j, length (longest_common_prefix (drop i (x # xs))
                                                   (drop j (y # ys)))))
                              [0 ..< Suc (length ys)])
                   [1 ..< Suc (length xs)])"
  by (simp add: match_candidates_def upt_conv_Cons del: upt_Suc)


lemma matched_total_Nil [simp]: "matched_total [] b = 0"
  by (subst matched_total.simps) (simp add: longest_match_def match_candidates_def)





lemma longest_match_second:
  assumes "a \<noteq> []" and "hd a \<noteq> c"
  shows "longest_match a (c # a) = (0, 1, length a)"
proof -
  from assms obtain x xs where a: "a = x # xs" and x: "x \<noteq> c"
    by (cases a) auto
  have up: "[1 ..< Suc (length (x # xs))] = 1 # [Suc 1 ..< Suc (Suc (length xs))]"
    by (simp add: upt_conv_Cons del: upt_Suc)
  obtain rest where cs: "match_candidates a (c # a) = (0, 0, 0) # (0, 1, length a) # rest"
    unfolding a match_candidates_Cons up using x
    by (simp add: longest_common_prefix_same del: upt_Suc)
  have "\<forall>d\<in>set rest. snd (snd d) \<le> length a"
  proof
    fix d assume "d \<in> set rest"
    then have "d \<in> set (match_candidates a (c # a))" using cs by simp
    then show "snd (snd d) \<le> length a"
      using match_candidates_bound[of "fst d" "fst (snd d)" "snd (snd d)" a "c # a"] by simp
  qed
  then have "fold better_match rest (0, 1, length a) = (0, 1, length a)"
    by (intro fold_better_match_keep) simp
  moreover have "better_match (0, 1, length a) (better_match (0, 0, 0) (0, 0, 0)) = (0, 1, length a)"
    using assms(1) by (simp add: better_match_def)
  ultimately show ?thesis by (simp add: longest_match_def cs)
qed

lemma ratio_spec_dropped_first:
  assumes "a \<noteq> []" and "hd a \<noteq> c"
  shows "ratio_spec a (c # a) = of_nat (2 * length a) / of_nat (2 * length a + 1)"
proof -
  have "matched_total a (c # a) = length a"
    using assms(1) by (subst matched_total.simps) (simp add: longest_match_second[OF assms])
  then show ?thesis by (simp add: ratio_spec_def)
qed



text \<open>
  C2. For a file whose relative path is in the table of known files: when the MD5 digest
  of its concatenated comment lines differs from the digest in the table, the run halts
  at once with a message that holds the path, the digest of the table and the new digest,
  and the updater is as it was, with no result recorded for the file; when the digests
  are equal, the file is recorded under the bucket of the table.
\<close>

theorem HandleNonLGPLFile_known:
  assumes "relpath (getcwd env) file_path (abspath (getcwd env) (source_dir self)) = Inr rel"
    and "map_of (known_file_map self) rel = Some info"
  shows
    "(md5_hexdigest env (ConcatLines comment_lines) \<noteq> license_digest info \<longrightarrow>
        HandleNonLGPLFile env self comment_lines file_path
          = Inl (SystemExit (header_changed_message rel (license_digest info)
                               (md5_hexdigest env (ConcatLines comment_lines))),
                 self)
        \<and> sublist rel (header_changed_message rel (license_digest info)
                          (md5_hexdigest env (ConcatLines comment_lines)))
        \<and> sublist (license_digest info)
             (header_changed_message rel (license_digest info)
                (md5_hexdigest env (ConcatLines comment_lines)))
        \<and> sublist (md5_hexdigest env (ConcatLines comment_lines))
             (header_changed_message rel (license_digest info)
                (md5_hexdigest env (ConcatLines comment_lines))))
     \<and> (md5_hexdigest env (ConcatLines comment_lines) = license_digest info \<longrightarrow>
        (\<exists>s'. HandleNonLGPLFile env self comment_lines file_path = Inr s'
           \<and> recorded_bucketed self s' (license info) rel
           \<and> map_of (known_credits s') (license info)
               = Some ((case map_of (known_credits self) (license info) of
                          None \<Rightarrow> [] | Some files \<Rightarrow> files) @ [rel])
           \<and> difficult_files s' = difficult_files self
           \<and> generated_credits s' = generated_credits self))"
  using assms
  by (simp add: HandleNonLGPLFile_def Let_def recorded_bucketed_def map_of_defaultdict_append
        sublist_header_changed_message)

theorem HandleNonLGPLFile_known_witness:
  "HandleNonLGPLFile example_env example_updater
     [[newline], ''jfdctfst.c'' @ [newline], '' '' @ [newline]]
     ''/src/ffmpeg/libavcodec/jfdctfst.c''
     = Inl (SystemExit (header_changed_message ''libavcodec/jfdctfst.c''
                          ''7dcfa68ad9c8fd940fb404ee3242e03f''
                          ''a9b8f5dcb74fa76a72069306b841b042''),
            example_updater)
   \<and> (\<exists>s'. HandleNonLGPLFile example_env example_updater
             [[newline], ''jrevdct.c'' @ [newline], '' '' @ [newline]]
             ''/src/ffmpeg/libavcodec/jrevdct.c'' = Inr s'
          \<and> map_of (known_credits s') JPEG = Some [''libavcodec/jrevdct.c''])"
proof -
  have r1: "relpath (getcwd example_env) ''/src/ffmpeg/libavcodec/jfdctfst.c''
              (abspath (getcwd example_env) (source_dir example_updater))
            = Inr ''libavcodec/jfdctfst.c''"
    by code_simp
  have m1: "map_of (known_file_map example_updater) ''libavcodec/jfdctfst.c''
            = Some \<lparr> license = JPEG, license_digest = ''7dcfa68ad9c8fd940fb404ee3242e03f'' \<rparr>"
    by code_simp
  have r2: "relpath (getcwd example_env) ''/src/ffmpeg/libavcodec/jrevdct.c''
              (abspath (getcwd example_env) (source_dir example_updater))
            = Inr ''libavcodec/jrevdct.c''"
    by code_simp
  have m2: "map_of (known_file_map example_updater) ''libavcodec/jrevdct.c''
            = Some \<lparr> license = JPEG, license_digest = ''a9b8f5dcb74fa76a72069306b841b042'' \<rparr>"
    by code_simp
  have d: "md5_hexdigest example_env s = ''a9b8f5dcb74fa76a72069306b841b042''" for s
    by (simp add: example_env_def)
  have k: "known_credits example_updater = []"
    by (simp add: example_updater_def init_def)
  from HandleNonLGPLFile_known[OF r1 m1, of "[[newline], ''jfdctfst.c'' @ [newline], '' '' @ [newline]]"]
  have 1: "HandleNonLGPLFile example_env example_updater
     [[newline], ''jfdctfst.c'' @ [newline], '' '' @ [newline]]
     ''/src/ffmpeg/libavcodec/jfdctfst.c''
     = Inl (SystemExit (header_changed_message ''libavcodec/jfdctfst.c''
                          ''7dcfa68ad9c8fd940fb404ee3242e03f''
                          ''a9b8f5dcb74fa76a72069306b841b042''),
            example_updater)"
    by (simp add: d)
  from HandleNonLGPLFile_known[OF r2 m2, of "[[newline], ''jrevdct.c'' @ [newline], '' '' @ [newline]]"]
  have 2: "\<exists>s'. HandleNonLGPLFile example_env example_updater
             [[newline], ''jrevdct.c'' @ [newline], '' '' @ [newline]]
             ''/src/ffmpeg/libavcodec/jrevdct.c'' = Inr s'
          \<and> map_of (known_credits s') JPEG = Some [''libavcodec/jrevdct.c'']"
    by (auto simp: d k)
  from 1 2 show ?thesis by blast
qed

text \<open>
  C3, as the specification states it: for a file whose relative path is not in the table
  (and that was not put in the reference bucket), the verbatim credit recorded for the
  path is exactly the concatenation of its raw comment lines. The code strips that
  concatenation first: for \<open>custom.c\<close> of the example tree the comment lines start with a
  line feed and end with a blank and a line feed, and the credit recorded has neither.
\<close>

theorem verbatim_not_raw_counterexample:
  "ExtractFirstCommentBlock (open_file example_env) ''/src/ffmpeg/custom.c''
     = Inr (Some [[newline], ''Copyright X'' @ [newline], '' '' @ [newline]])
   \<and> map_of (known_file_map example_updater) ''custom.c'' = None
   \<and> (case ProcessFile example_env example_updater ''custom.c'' of
         Inl e \<Rightarrow> False
       | Inr s' \<Rightarrow>
           map_of (generated_credits s') ''custom.c'' = Some ''Copyright X''
           \<and> map_of (generated_credits s') ''custom.c''
               \<noteq> Some (ConcatLines [[newline], ''Copyright X'' @ [newline], '' '' @ [newline]]))"
  by code_simp

text \<open>
  C3, amended: for a file whose relative path is not in the table, the verbatim credit
  recorded under that relative path is the concatenation of its raw comment lines with
  the whitespace at its start and at its end removed (\<open>str.strip\<close>).
\<close>

theorem HandleNonLGPLFile_verbatim_stripped:
  assumes "relpath (getcwd env) file_path (abspath (getcwd env) (source_dir self)) = Inr rel"
    and "map_of (known_file_map self) rel = None"
  shows
    "\<exists>s'. HandleNonLGPLFile env self comment_lines file_path = Inr s'
       \<and> recorded_verbatim self s' rel (strip (ConcatLines comment_lines))
       \<and> map_of (generated_credits s') rel = Some (strip (ConcatLines comment_lines))
       \<and> (\<exists>pre post. ConcatLines comment_lines = pre @ strip (ConcatLines comment_lines) @ post
             \<and> (\<forall>c\<in>set pre. isspace c) \<and> (\<forall>c\<in>set post. isspace c))"
  using assms strip_decompose[of "ConcatLines comment_lines"]
  by (simp add: HandleNonLGPLFile_def recorded_verbatim_def update_conv')

theorem HandleNonLGPLFile_verbatim_stripped_witness:
  "\<exists>s'. HandleNonLGPLFile example_env example_updater
          [[newline], ''Copyright X'' @ [newline], '' '' @ [newline]] ''/src/ffmpeg/custom.c''
        = Inr s'
     \<and> map_of (generated_credits s') ''custom.c'' = Some ''Copyright X''"
proof -
  have r: "relpath (getcwd example_env) ''/src/ffmpeg/custom.c''
              (abspath (getcwd example_env) (source_dir example_updater))
            = Inr ''custom.c''"
    by code_simp
  have m: "map_of (known_file_map example_updater) ''custom.c'' = None"
    by code_simp
  have s: "strip (ConcatLines [[newline], ''Copyright X'' @ [newline], '' '' @ [newline]])
           = ''Copyright X''"
    by code_simp
  from HandleNonLGPLFile_verbatim_stripped[OF r m,
         of "[[newline], ''Copyright X'' @ [newline], '' '' @ [newline]]"]
  show ?thesis unfolding s by blast
qed

text \<open>
  C4. For a file whose comment block was extracted: when the block normalizes and the
  similarity ratio of its concatenated normalized lines against \<open>FFMPEG_LGPL_REF\<close> is at
  least 0.9, the file is recorded in the reference (LGPL) bucket; when the ratio is below
  0.9, and when the block does not normalize, the file goes to the bucket resolver
  \<open>HandleNonLGPLFile\<close> with its raw comment lines.
\<close>

theorem ProcessFile_classifier:
  assumes "ExtractFirstCommentBlock (open_file env) (absolute_file_path env self path)
             = Inr (Some comment_lines)"
  shows
    "(\<forall>nl. NormalizeCommentLines comment_lines = Some nl
            \<and> LGPL_MATCH_THRESHOLD \<le> sequence_ratio env (ConcatLines nl) FFMPEG_LGPL_REF
        \<longrightarrow> (\<exists>s'. ProcessFile env self path = Inr s'
               \<and> recorded_bucketed self s' LGPL (absolute_file_path env self path)
               \<and> map_of (known_credits s') LGPL
                   = Some ((case map_of (known_credits self) LGPL of
                              None \<Rightarrow> [] | Some files \<Rightarrow> files)
                           @ [absolute_file_path env self path])))
     \<and> (\<forall>nl. NormalizeCommentLines comment_lines = Some nl
            \<and> sequence_ratio env (ConcatLines nl) FFMPEG_LGPL_REF < LGPL_MATCH_THRESHOLD
        \<longrightarrow> ProcessFile env self path
              = HandleNonLGPLFile env self comment_lines (absolute_file_path env self path))
     \<and> (NormalizeCommentLines comment_lines = None
        \<longrightarrow> ProcessFile env self path
              = HandleNonLGPLFile env self comment_lines (absolute_file_path env self path))"
  by (auto simp: ProcessFile_Some[OF assms] recorded_bucketed_def map_of_defaultdict_append)

theorem ProcessFile_classifier_witness:
  "(\<exists>s'. ProcessFile example_env example_updater ''lgpl.c'' = Inr s'
       \<and> map_of (known_credits s') LGPL = Some [''/src/ffmpeg/lgpl.c''])
   \<and> ProcessFile example_env example_updater ''altered.c''
       = HandleNonLGPLFile example_env example_updater
           [[newline], ''This file is part of FFmpeg, altered.'' @ [newline], '' '' @ [newline]]
           ''/src/ffmpeg/altered.c''
   \<and> ProcessFile example_env example_updater ''custom.c''
       = HandleNonLGPLFile example_env example_updater
           [[newline], ''Copyright X'' @ [newline], '' '' @ [newline]]
           ''/src/ffmpeg/custom.c''"
proof -
  let ?l = "[[newline], ''This file is part of FFmpeg.'' @ [newline], '' '' @ [newline]]"
  let ?a = "[[newline], ''This file is part of FFmpeg, altered.'' @ [newline], '' '' @ [newline]]"
  let ?c = "[[newline], ''Copyright X'' @ [newline], '' '' @ [newline]]"
  have pl: "absolute_file_path example_env example_updater ''lgpl.c'' = ''/src/ffmpeg/lgpl.c''"
    and pa: "absolute_file_path example_env example_updater ''altered.c'' = ''/src/ffmpeg/altered.c''"
    and pc: "absolute_file_path example_env example_updater ''custom.c'' = ''/src/ffmpeg/custom.c''"
    by code_simp+
  have el: "ExtractFirstCommentBlock (open_file example_env)
              (absolute_file_path example_env example_updater ''lgpl.c'') = Inr (Some ?l)"
    and ea: "ExtractFirstCommentBlock (open_file example_env)
              (absolute_file_path example_env example_updater ''altered.c'') = Inr (Some ?a)"
    and ec: "ExtractFirstCommentBlock (open_file example_env)
              (absolute_file_path example_env example_updater ''custom.c'') = Inr (Some ?c)"
    by code_simp+
  have nl: "NormalizeCommentLines ?l = Some (tl ?l)
            \<and> LGPL_MATCH_THRESHOLD \<le> sequence_ratio example_env (ConcatLines (tl ?l)) FFMPEG_LGPL_REF"
    and na: "NormalizeCommentLines ?a = Some (tl ?a)
            \<and> sequence_ratio example_env (ConcatLines (tl ?a)) FFMPEG_LGPL_REF < LGPL_MATCH_THRESHOLD"
    and nc: "NormalizeCommentLines ?c = None"
    by code_simp+
  have k: "map_of (known_credits example_updater) LGPL = None"
    by code_simp
  from ProcessFile_classifier[OF el] nl k
  have 1: "\<exists>s'. ProcessFile example_env example_updater ''lgpl.c'' = Inr s'
       \<and> map_of (known_credits s') LGPL = Some [''/src/ffmpeg/lgpl.c'']"
    unfolding pl by fastforce
  from ProcessFile_classifier[OF ea] na
  have 2: "ProcessFile example_env example_updater ''altered.c''
       = HandleNonLGPLFile example_env example_updater ?a ''/src/ffmpeg/altered.c''"
    unfolding pa by blast
  from ProcessFile_classifier[OF ec] nc
  have 3: "ProcessFile example_env example_updater ''custom.c''
       = HandleNonLGPLFile example_env example_updater ?c ''/src/ffmpeg/custom.c''"
    unfolding pc by blast
  from 1 2 3 show ?thesis by blast
qed



section \<open>The claims\<close>

text \<open>
  C6. For every comment block, the normalizer succeeds exactly when the first line that
  matches the marker pattern (\<open>This file is part of FFmpeg\<close>) is at an index of at most
  20 from the start of the block, and it then returns the lines from the marker line to
  the end of the block. It fails when no line matches and when the index of the first
  matching line is above 20. So it succeeds with the marker at index 20 and fails with
  the marker at index 21.
\<close>

theorem NormalizeCommentLines_marker:
  "(i < length ls \<and> re_search FFMPEG_HEADER_START (ls ! i)
      \<and> (\<forall>k<i. \<not> re_search FFMPEG_HEADER_START (ls ! k))
     \<longrightarrow> NormalizeCommentLines ls = (if i \<le> 20 then Some (drop i ls) else None))
   \<and> ((\<forall>l\<in>set ls. \<not> re_search FFMPEG_HEADER_START l) \<longrightarrow> NormalizeCommentLines ls = None)
   \<and> (NormalizeCommentLines ls \<noteq> None
        \<longleftrightarrow> (\<exists>j\<le>20. j < length ls \<and> re_search FFMPEG_HEADER_START (ls ! j)))"
proof (intro conjI impI)
  assume a: "i < length ls \<and> re_search FFMPEG_HEADER_START (ls ! i)
      \<and> (\<forall>k<i. \<not> re_search FFMPEG_HEADER_START (ls ! k))"
  then have "find_header ls 0 = i"
    by (simp add: find_header_takeWhile length_takeWhile_first)
  with a show "NormalizeCommentLines ls = (if i \<le> 20 then Some (drop i ls) else None)"
    by (simp add: NormalizeCommentLines_def)
next
  assume "\<forall>l\<in>set ls. \<not> re_search FFMPEG_HEADER_START l"
  then have "find_header ls 0 = length ls"
    by (simp add: find_header_takeWhile length_takeWhile_none)
  then show "NormalizeCommentLines ls = None"
    by (simp add: NormalizeCommentLines_def)
next
  let ?P = "re_search FFMPEG_HEADER_START"
  let ?n = "length (takeWhile (\<lambda>l. \<not> ?P l) ls)"
  have fh: "find_header ls 0 = ?n" by (simp add: find_header_takeWhile)
  have le: "?n \<le> length ls" by (rule length_takeWhile_le)
  show "NormalizeCommentLines ls \<noteq> None \<longleftrightarrow> (\<exists>j\<le>20. j < length ls \<and> ?P (ls ! j))"
  proof
    assume "NormalizeCommentLines ls \<noteq> None"
    then have "?n \<noteq> length ls" and "?n \<le> 20"
      by (auto simp: NormalizeCommentLines_def fh Let_def split: if_splits)
    with le have "?n < length ls" by simp
    with \<open>?n \<le> 20\<close> length_takeWhile_less[of ?P ls] show "\<exists>j\<le>20. j < length ls \<and> ?P (ls ! j)"
      by blast
  next
    assume "\<exists>j\<le>20. j < length ls \<and> ?P (ls ! j)"
    then obtain j where j: "j \<le> 20" "j < length ls" "?P (ls ! j)" by blast
    have "?n \<le> j"
    proof (rule ccontr)
      assume "\<not> ?n \<le> j"
      then have "j < ?n" by simp
      then have "\<not> ?P (ls ! j)"
        using nth_mem[of j "takeWhile (\<lambda>l. \<not> ?P l) ls"] set_takeWhileD[of "ls ! j" "\<lambda>l. \<not> ?P l" ls]
        by (simp add: takeWhile_nth)
      with j show False by simp
    qed
    with j show "NormalizeCommentLines ls \<noteq> None"
      by (simp add: NormalizeCommentLines_def fh)
  qed
qed

theorem NormalizeCommentLines_marker_witness:
  "NormalizeCommentLines (replicate 20 ''Copyright (c) 2001'' @ [''This file is part of FFmpeg.'', ''x''])
     = Some [''This file is part of FFmpeg.'', ''x'']
   \<and> NormalizeCommentLines (replicate 21 ''Copyright (c) 2001'' @ [''This file is part of FFmpeg.'', ''x''])
     = None
   \<and> NormalizeCommentLines [''Copyright (c) 2001'', ''x''] = None"
proof -
  let ?c = "''Copyright (c) 2001''" and ?m = "''This file is part of FFmpeg.''"
  have m: "re_search FFMPEG_HEADER_START ?m" and c: "\<not> re_search FFMPEG_HEADER_START ?c"
    and x: "\<not> re_search FFMPEG_HEADER_START ''x''"
    by (simp_all add: FFMPEG_HEADER_START_def rmatch.simps(5))
  have n20: "\<forall>k<20. \<not> re_search FFMPEG_HEADER_START ((replicate 20 ?c @ [?m, ''x'']) ! k)"
    using c by (simp add: nth_append)
  have n21: "\<forall>k<21. \<not> re_search FFMPEG_HEADER_START ((replicate 21 ?c @ [?m, ''x'']) ! k)"
    using c by (simp add: nth_append)
  have "NormalizeCommentLines (replicate 20 ?c @ [?m, ''x'']) = Some [?m, ''x'']"
    using NormalizeCommentLines_marker[of 20 "replicate 20 ?c @ [?m, ''x'']"] m n20
    by (simp add: nth_append)
  moreover have "NormalizeCommentLines (replicate 21 ?c @ [?m, ''x'']) = None"
    using NormalizeCommentLines_marker[of 21 "replicate 21 ?c @ [?m, ''x'']"] m n21
    by (simp add: nth_append)
  moreover have "NormalizeCommentLines [?c, ''x''] = None"
    using NormalizeCommentLines_marker[of 0 "[?c, ''x'']"] c x by simp
  ultimately show ?thesis by simp
qed







text \<open>
  C10, as the specification states it: files that the similarity classifier puts in the
  reference (LGPL) bucket are recorded under their absolute path and files recorded by
  the bucket resolver under their path relative to the source directory, so that in the
  bucketed collection entries of the reference bucket and entries of the other buckets
  have different forms of path. The table of known files gives \<open>libavcodec/codec_desc.c\<close>
  the bucket \<open>LGPL\<close>: that file reaches the reference bucket through the resolver and is
  recorded there under its relative path, in the form of the entries of the other
  buckets.
\<close>

theorem reference_bucket_relative_counterexample:
  "ProcessFile example_env_codec_desc example_updater ''libavcodec/codec_desc.c''
     = Inr (example_updater\<lparr> known_credits := [(LGPL, [''libavcodec/codec_desc.c''])] \<rparr>)
   \<and> ProcessFile example_env example_updater ''libavcodec/jrevdct.c''
     = Inr (example_updater\<lparr> known_credits := [(JPEG, [''libavcodec/jrevdct.c''])] \<rparr>)
   \<and> \<not> isabs ''libavcodec/codec_desc.c''
   \<and> \<not> isabs ''libavcodec/jrevdct.c''"
  by code_simp

text \<open>
  C10, amended: with an absolute current directory, the path under which \<open>ProcessFile\<close>
  reads a file is absolute and its path relative to the source directory is not, so the
  two differ. A file that the similarity classifier puts in the reference (LGPL) bucket
  is recorded under the absolute path; a file that goes to the bucket resolver is
  recorded, in the bucket of the table or as a verbatim entry, under the relative path.
  So every bucketed entry is either an absolute path in the reference bucket, from the
  classifier, or a relative path in the bucket that the table gives it, from the
  resolver: the entries of the other buckets are all relative, and an entry of the
  reference bucket is absolute unless the table put it there.
\<close>

theorem ProcessFile_path_forms:
  assumes "isabs (getcwd env)"
    and "ExtractFirstCommentBlock (open_file env) (absolute_file_path env self path)
           = Inr (Some comment_lines)"
  shows
    "\<exists>rel. relpath (getcwd env) (absolute_file_path env self path)
              (abspath (getcwd env) (source_dir self)) = Inr rel
       \<and> isabs (absolute_file_path env self path)
       \<and> \<not> isabs rel
       \<and> rel \<noteq> absolute_file_path env self path
       \<and> (\<forall>nl. NormalizeCommentLines comment_lines = Some nl
               \<and> LGPL_MATCH_THRESHOLD \<le> sequence_ratio env (ConcatLines nl) FFMPEG_LGPL_REF
            \<longrightarrow> (\<exists>s'. ProcessFile env self path = Inr s'
                   \<and> recorded_bucketed self s' LGPL (absolute_file_path env self path)))
       \<and> ((NormalizeCommentLines comment_lines = None
            \<or> (\<exists>nl. NormalizeCommentLines comment_lines = Some nl
                  \<and> sequence_ratio env (ConcatLines nl) FFMPEG_LGPL_REF < LGPL_MATCH_THRESHOLD))
            \<longrightarrow> (\<forall>s'. ProcessFile env self path = Inr s'
                   \<longrightarrow> (\<exists>info. map_of (known_file_map self) rel = Some info
                           \<and> recorded_bucketed self s' (license info) rel)
                       \<or> (map_of (known_file_map self) rel = None
                           \<and> recorded_verbatim self s' rel (strip (ConcatLines comment_lines)))))
       \<and> (\<forall>s' lic p. ProcessFile env self path = Inr s' \<and> recorded_bucketed self s' lic p
            \<longrightarrow> (lic = LGPL \<and> p = absolute_file_path env self path)
                \<or> (p = rel \<and> (\<exists>info. map_of (known_file_map self) rel = Some info
                                  \<and> license info = lic)))"
proof -
  let ?fp = "absolute_file_path env self path"
  from relpath_total[OF absolute_file_path_nonempty, of "getcwd env" env self path
        "abspath (getcwd env) (source_dir self)"]
  obtain rel where rel: "relpath (getcwd env) ?fp (abspath (getcwd env) (source_dir self)) = Inr rel"
    by blast
  have abs: "isabs ?fp" using assms(1) by (rule absolute_file_path_isabs)
  have nabs: "\<not> isabs rel" using rel by (rule relpath_not_isabs)
  from abs nabs have ne: "rel \<noteq> ?fp" by auto
  note pf = ProcessFile_Some[OF assms(2)]
  let ?cls = "\<exists>nl. NormalizeCommentLines comment_lines = Some nl
               \<and> LGPL_MATCH_THRESHOLD \<le> sequence_ratio env (ConcatLines nl) FFMPEG_LGPL_REF"
  let ?res = "NormalizeCommentLines comment_lines = None
            \<or> (\<exists>nl. NormalizeCommentLines comment_lines = Some nl
                  \<and> sequence_ratio env (ConcatLines nl) FFMPEG_LGPL_REF < LGPL_MATCH_THRESHOLD)"
  have split: "?cls \<or> ?res"
    by (cases "NormalizeCommentLines comment_lines") auto
  have cls_eq: "ProcessFile env self path
      = Inr (self\<lparr> known_credits := defaultdict_append LGPL ?fp (known_credits self) \<rparr>)"
    if ?cls
    using that by (auto simp: pf)
  have cls: "\<forall>nl. NormalizeCommentLines comment_lines = Some nl
               \<and> LGPL_MATCH_THRESHOLD \<le> sequence_ratio env (ConcatLines nl) FFMPEG_LGPL_REF
            \<longrightarrow> (\<exists>s'. ProcessFile env self path = Inr s' \<and> recorded_bucketed self s' LGPL ?fp)"
    using cls_eq by (auto simp: recorded_bucketed_def)
  have res: "\<forall>s'. HandleNonLGPLFile env self comment_lines ?fp = Inr s'
                   \<longrightarrow> (\<exists>info. map_of (known_file_map self) rel = Some info
                           \<and> recorded_bucketed self s' (license info) rel)
                       \<or> (map_of (known_file_map self) rel = None
                           \<and> recorded_verbatim self s' rel (strip (ConcatLines comment_lines)))"
    using rel
    by (auto simp: HandleNonLGPLFile_def Let_def recorded_bucketed_def recorded_verbatim_def
             split: option.splits if_splits)
  have res_eq: "ProcessFile env self path = HandleNonLGPLFile env self comment_lines ?fp"
    if ?res
    using that by (auto simp: pf)
  have hres: "?res \<longrightarrow> (\<forall>s'. ProcessFile env self path = Inr s'
                   \<longrightarrow> (\<exists>info. map_of (known_file_map self) rel = Some info
                           \<and> recorded_bucketed self s' (license info) rel)
                       \<or> (map_of (known_file_map self) rel = None
                           \<and> recorded_verbatim self s' rel (strip (ConcatLines comment_lines))))"
    using res res_eq by metis
  have all: "(lic = LGPL \<and> p = ?fp)
                \<or> (p = rel \<and> (\<exists>info. map_of (known_file_map self) rel = Some info
                                  \<and> license info = lic))"
    if h: "ProcessFile env self path = Inr s'" "recorded_bucketed self s' lic p" for s' lic p
    using split
  proof
    assume ?cls
    from cls_eq[OF this] h(1)
    have "recorded_bucketed self s' LGPL ?fp" by (simp add: recorded_bucketed_def)
    from recorded_bucketed_excl(3)[OF this h(2)] show ?thesis by simp
  next
    assume r: ?res
    with hres h(1) consider
      (b) info where "map_of (known_file_map self) rel = Some info"
            "recorded_bucketed self s' (license info) rel"
      | (v) "recorded_verbatim self s' rel (strip (ConcatLines comment_lines))"
      by blast
    then show ?thesis
    proof cases
      case b
      from recorded_bucketed_excl(3)[OF b(2) h(2)] b(1) show ?thesis by auto
    next
      case v
      from recorded_verbatim_excl(2)[OF v] h(2) show ?thesis by blast
    qed
  qed
  from rel abs nabs ne cls hres all show ?thesis by blast
qed

theorem ProcessFile_path_forms_witness:
  "(\<exists>s'. ProcessFile example_env example_updater ''lgpl.c'' = Inr s'
       \<and> recorded_bucketed example_updater s' LGPL ''/src/ffmpeg/lgpl.c'')
   \<and> (\<exists>s'. ProcessFile example_env example_updater ''libavcodec/jrevdct.c'' = Inr s'
       \<and> recorded_bucketed example_updater s' JPEG ''libavcodec/jrevdct.c'')
   \<and> (\<exists>s'. ProcessFile example_env example_updater ''custom.c'' = Inr s'
       \<and> recorded_verbatim example_updater s' ''custom.c'' ''Copyright X'')"
proof -
  let ?l = "[[newline], ''This file is part of FFmpeg.'' @ [newline], '' '' @ [newline]]"
  let ?j = "[[newline], ''jrevdct.c'' @ [newline], '' '' @ [newline]]"
  let ?c = "[[newline], ''Copyright X'' @ [newline], '' '' @ [newline]]"
  have cwd: "isabs (getcwd example_env)" by code_simp
  have pl: "absolute_file_path example_env example_updater ''lgpl.c'' = ''/src/ffmpeg/lgpl.c''"
    by code_simp
  have el: "ExtractFirstCommentBlock (open_file example_env)
              (absolute_file_path example_env example_updater ''lgpl.c'') = Inr (Some ?l)"
    and ej: "ExtractFirstCommentBlock (open_file example_env)
              (absolute_file_path example_env example_updater ''libavcodec/jrevdct.c'') = Inr (Some ?j)"
    and ec: "ExtractFirstCommentBlock (open_file example_env)
              (absolute_file_path example_env example_updater ''custom.c'') = Inr (Some ?c)"
    by code_simp+
  have nl: "NormalizeCommentLines ?l = Some (tl ?l)
            \<and> LGPL_MATCH_THRESHOLD \<le> sequence_ratio example_env (ConcatLines (tl ?l)) FFMPEG_LGPL_REF"
    and nj: "NormalizeCommentLines ?j = None"
    and nc: "NormalizeCommentLines ?c = None"
    by code_simp+
  have rj: "relpath (getcwd example_env)
              (absolute_file_path example_env example_updater ''libavcodec/jrevdct.c'')
              (abspath (getcwd example_env) (source_dir example_updater))
            = Inr ''libavcodec/jrevdct.c''"
    and rc: "relpath (getcwd example_env)
              (absolute_file_path example_env example_updater ''custom.c'')
              (abspath (getcwd example_env) (source_dir example_updater))
            = Inr ''custom.c''"
    by code_simp+
  have mj: "map_of (known_file_map example_updater) ''libavcodec/jrevdct.c''
            = Some \<lparr> license = JPEG, license_digest = ''a9b8f5dcb74fa76a72069306b841b042'' \<rparr>"
    and mc: "map_of (known_file_map example_updater) ''custom.c'' = None"
    by code_simp+
  have sj: "ProcessFile example_env example_updater ''libavcodec/jrevdct.c''
            = Inr (example_updater\<lparr> known_credits := [(JPEG, [''libavcodec/jrevdct.c''])] \<rparr>)"
    and sc: "ProcessFile example_env example_updater ''custom.c''
            = Inr (example_updater\<lparr> generated_credits := [(''custom.c'', ''Copyright X'')] \<rparr>)"
    and stc: "strip (ConcatLines ?c) = ''Copyright X''"
    by code_simp+
  from ProcessFile_path_forms[OF cwd el] nl
  have 1: "\<exists>s'. ProcessFile example_env example_updater ''lgpl.c'' = Inr s'
       \<and> recorded_bucketed example_updater s' LGPL ''/src/ffmpeg/lgpl.c''"
    unfolding pl by blast
  from ProcessFile_path_forms[OF cwd ej] nj rj mj sj
  have 2: "\<exists>s'. ProcessFile example_env example_updater ''libavcodec/jrevdct.c'' = Inr s'
       \<and> recorded_bucketed example_updater s' JPEG ''libavcodec/jrevdct.c''"
    by fastforce
  from ProcessFile_path_forms[OF cwd ec] nc rc mc sc
  have 3: "\<exists>s'. ProcessFile example_env example_updater ''custom.c'' = Inr s'
       \<and> recorded_verbatim example_updater s' ''custom.c'' ''Copyright X''"
    unfolding stc by fastforce
  from 1 2 3 show ?thesis by blast
qed

end
